theory Spec2Isabelle
  imports Complex_Main
begin

section \<open>Data model\<close>

text \<open>
  The module \<^verbatim>\<open>afxnuketools/metrics.py\<close> computes the weighted centroid and the maximum
  of one channel of a node over its bounding box. Floats are modelled by exact reals.
  \<^verbatim>\<open>Bounds\<close> is the inclusive integer rectangle the workers read through
  \<^verbatim>\<open>region.x1\<close>, \<^verbatim>\<open>region.y1\<close>, \<^verbatim>\<open>region.x2\<close>, \<^verbatim>\<open>region.y2\<close>.
\<close>

record Bounds =
  x1 :: int
  y1 :: int
  x2 :: int
  y2 :: int

text \<open>
  The exceptions that can leave a line of the module: \<^verbatim>\<open>xrange\<close> refuses a zero step,
  a float division refuses a zero divisor, \<^verbatim>\<open>node.sample\<close> may raise (kept by its
  message), and the public operations raise \<^verbatim>\<open>Exception(str(r))\<close>.
\<close>

datatype py_exception =
  ValueError
| ZeroDivisionError
| SampleError string
| Exception string

fun str_exception :: "py_exception \<Rightarrow> string" where
  "str_exception ValueError = ''xrange() arg 3 must not be zero''"
| "str_exception ZeroDivisionError = ''float division by zero''"
| "str_exception (SampleError m) = m"
| "str_exception (Exception m) = m"

text \<open>
  \<^verbatim>\<open>node.sample(channel, x, y)\<close> for the node and channel of one call: a function of the
  pixel that returns the sample or raises with a message.
\<close>

type_synonym sampler = "int \<Rightarrow> int \<Rightarrow> string + real"

definition py_div :: "real \<Rightarrow> real \<Rightarrow> py_exception + real" where
  "py_div a b = (if b = 0 then Inl ZeroDivisionError else Inr (a / b))"

section \<open>Iteration over xrange\<close>

text \<open>
  \<^verbatim>\<open>for i in xrange(start, stop, step): body\<close>, threading the variables the body
  updates. A body that raises ends the loop with its exception; a body that does not
  return leaves the loop without a result (\<open>None\<close>). A zero step makes \<^verbatim>\<open>xrange\<close> raise
  \<^verbatim>\<open>ValueError\<close>; a negative step counts down while above \<open>stop\<close>. The bounds are taken
  to lie in the range of integers \<^verbatim>\<open>xrange\<close> accepts.
\<close>

partial_function (option) for_xrange ::
  "(int \<Rightarrow> 's \<Rightarrow> (py_exception + 's) option) \<Rightarrow> int \<Rightarrow> int \<Rightarrow> int \<Rightarrow> 's
     \<Rightarrow> (py_exception + 's) option" where
  "for_xrange body i stop step s =
     (if step = 0 then Some (Inl ValueError)
      else if (0 < step \<and> i < stop) \<or> (step < 0 \<and> stop < i) then
        (case body i s of
           None \<Rightarrow> None
         | Some (Inl e) \<Rightarrow> Some (Inl e)
         | Some (Inr s') \<Rightarrow> for_xrange body (i + step) stop step s')
      else Some (Inr s))"

declare for_xrange.simps [code]

section \<open>The worker functions\<close>

text \<open>
  One pass of the inner loop body of \<^verbatim>\<open>_centroid\<close> on the variables
  \<open>(mean_x, mean_y, mean_weight, n)\<close>.
\<close>

fun centroid_step ::
  "sampler \<Rightarrow> int \<Rightarrow> int \<Rightarrow> real \<times> real \<times> real \<times> int
     \<Rightarrow> py_exception + real \<times> real \<times> real \<times> int" where
  "centroid_step sample x y (mean_x, mean_y, mean_weight, n) =
     (case sample x y of
        Inl m \<Rightarrow> Inl (SampleError m)
      | Inr weight \<Rightarrow>
          (let n' = n + 1 in
           case py_div (weight - mean_weight) (of_int n') of
             Inl e \<Rightarrow> Inl e
           | Inr dw \<Rightarrow>
               (case py_div (weight * of_int x - mean_x) (of_int n') of
                  Inl e \<Rightarrow> Inl e
                | Inr dx \<Rightarrow>
                    (case py_div (weight * of_int y - mean_y) (of_int n') of
                       Inl e \<Rightarrow> Inl e
                     | Inr dy \<Rightarrow>
                         Inr (mean_x + dx, mean_y + dy, mean_weight + dw, n')))))"

text \<open>\<^verbatim>\<open>_centroid(region, node_name, channel, step)\<close>; returns \<open>(mean_x, mean_y, mean_weight)\<close>.\<close>

definition p_centroid ::
  "Bounds \<Rightarrow> sampler \<Rightarrow> int \<Rightarrow> (py_exception + real \<times> real \<times> real) option" where
  "p_centroid region sample step =
     (case for_xrange
             (\<lambda>y. for_xrange (\<lambda>x st. Some (centroid_step sample x y st))
                    (x1 region) (x2 region + 1) step)
             (y1 region) (y2 region + 1) step (0, 0, 0, 0) of
        None \<Rightarrow> None
      | Some (Inl e) \<Rightarrow> Some (Inl e)
      | Some (Inr (mean_x, mean_y, mean_weight, n)) \<Rightarrow>
          Some (Inr (mean_x, mean_y, mean_weight)))"

text \<open>One pass of the inner loop body of \<^verbatim>\<open>_max_value\<close> on the variable \<open>max_val\<close>.\<close>

definition max_value_step :: "sampler \<Rightarrow> int \<Rightarrow> int \<Rightarrow> real \<Rightarrow> py_exception + real" where
  "max_value_step sample x y max_val =
     (case sample x y of
        Inl m \<Rightarrow> Inl (SampleError m)
      | Inr v \<Rightarrow> Inr (max max_val v))"

text \<open>\<^verbatim>\<open>_max_value(region, node_name, channel, step)\<close>.\<close>

definition p_max_value :: "Bounds \<Rightarrow> sampler \<Rightarrow> int \<Rightarrow> (py_exception + real) option" where
  "p_max_value region sample step =
     for_xrange
       (\<lambda>y. for_xrange (\<lambda>x max_val. Some (max_value_step sample x y max_val))
              (x1 region) (x2 region + 1) step)
       (y1 region) (y2 region + 1) step 0"

section \<open>The public operations\<close>

text \<open>
  The engine \<^verbatim>\<open>ImageMultiProcessor\<close> and the progress task belong to the host and to
  another package, so the operations take them as parameters: the engine as the
  methods the operations call, on an engine state of any type \<open>'e\<close>, and the task as
  the answers of \<^verbatim>\<open>task.isCancelled()\<close>, numbered by call. An entry of
  \<^verbatim>\<open>mp.results\<close> is a captured exception (\<open>Inl\<close>) or a worker's value (\<open>Inr\<close>).
  \<open>mp_process_by_chunks\<close> gives the state of a fresh engine after the worker function
  has been submitted for a region. \<^verbatim>\<open>task.setProgress\<close> only draws and is left out.
  After the polling loop the engine is taken to be at rest: \<^verbatim>\<open>mp.results\<close> and
  \<^verbatim>\<open>mp.state()\<close> are read once.
\<close>

record ('e, 'v) engine =
  mp_process_by_chunks :: "(Bounds \<Rightarrow> (py_exception + 'v) option) \<Rightarrow> Bounds \<Rightarrow> 'e"
  mp_is_working :: "'e \<Rightarrow> bool"
  mp_abort :: "'e \<Rightarrow> 'e"
  mp_wait_one :: "'e \<Rightarrow> 'e"
  mp_results :: "'e \<Rightarrow> (py_exception + 'v) list"
  mp_processes :: "'e \<Rightarrow> int"
  mp_state :: "'e \<Rightarrow> bool"

text \<open>The node of a call: its bounding box and its sampler for the channel of the call.\<close>

record node =
  bbox_x :: int
  bbox_y :: int
  bbox_w :: int
  bbox_h :: int
  node_sample :: sampler

definition bbox_region :: "node \<Rightarrow> Bounds" where
  "bbox_region nd =
     \<lparr>x1 = bbox_x nd, y1 = bbox_y nd,
      x2 = bbox_w nd + bbox_x nd - 1, y2 = bbox_h nd + bbox_y nd - 1\<rparr>"

text \<open>
  The polling loop \<^verbatim>\<open>while mp.is_working(): ...\<close>; \<open>k\<close> counts the calls of
  \<^verbatim>\<open>task.isCancelled()\<close>. The progress value divides by \<^verbatim>\<open>float(mp.processes())\<close>.
\<close>

partial_function (option) poll ::
  "('e, 'v) engine \<Rightarrow> (nat \<Rightarrow> bool) \<Rightarrow> nat \<Rightarrow> 'e \<Rightarrow> (py_exception + 'e) option" where
  "poll mp isCancelled k e =
     (if mp_is_working mp e then
        (if isCancelled k then Some (Inr (mp_abort mp e))
         else
           (let e' = mp_wait_one mp e in
            if mp_processes mp e' = 0 then Some (Inl ZeroDivisionError)
            else poll mp isCancelled (Suc k) e'))
      else Some (Inr e))"

declare poll.simps [code]

text \<open>
  How the statements inside \<^verbatim>\<open>with ... as mp:\<close> end: they run to the end, or they
  raise. Both carry the value that the variable returned after the block
  (\<^verbatim>\<open>centroid\<close>, \<^verbatim>\<open>max_val\<close>) holds at that moment. What \<^verbatim>\<open>__exit__\<close> answers to an
  exception is the engine's business: \<open>suppress\<close> says whether it swallows it, in which
  case the function goes on to its \<^verbatim>\<open>return\<close>.
\<close>

datatype 'a block_outcome = Completes 'a | Raises py_exception 'a

fun with_exit :: "bool \<Rightarrow> 'a block_outcome \<Rightarrow> py_exception + 'a" where
  "with_exit suppress (Completes v) = Inr v"
| "with_exit suppress (Raises e v) = (if suppress then Inr v else Inl e)"

text \<open>\<^verbatim>\<open>str(r)\<close> for an entry of the results; \<open>py_str\<close> is \<^verbatim>\<open>str\<close> on a worker's value.\<close>

definition str_result :: "('v \<Rightarrow> string) \<Rightarrow> py_exception + 'v \<Rightarrow> string" where
  "str_result py_str r = (case r of Inl e \<Rightarrow> str_exception e | Inr v \<Rightarrow> py_str v)"

text \<open>
  The loop \<^verbatim>\<open>for r in mp.results\<close> of \<^verbatim>\<open>centroid\<close> on the variables
  \<open>(sum_x, sum_y, sum_weight)\<close>; \<open>Inl\<close> is the exception it raises.
\<close>

fun centroid_sums ::
  "(real \<times> real \<times> real \<Rightarrow> string) \<Rightarrow> bool \<Rightarrow> (py_exception + real \<times> real \<times> real) list
     \<Rightarrow> real \<times> real \<times> real \<Rightarrow> py_exception + real \<times> real \<times> real" where
  "centroid_sums py_str state [] acc = Inr acc"
| "centroid_sums py_str state (r # rs) (sum_x, sum_y, sum_weight) =
     (if \<not> state \<or> isl r then Inl (Exception (str_result py_str r))
      else
        (case r of
           Inr (mean_x, mean_y, mean_weight) \<Rightarrow>
             centroid_sums py_str state rs
               (sum_x + mean_x, sum_y + mean_y, sum_weight + mean_weight)
         | Inl e \<Rightarrow> Inl (Exception (str_exception e))))"

text \<open>
  The statements of \<^verbatim>\<open>centroid\<close> after the polling loop, given \<^verbatim>\<open>mp.results\<close> and
  \<^verbatim>\<open>mp.state()\<close>. The variable \<^verbatim>\<open>centroid\<close> is \<open>None\<close> when the loop raises and still
  \<open>(0.0, 0.0)\<close> before the last assignment.
\<close>

definition centroid_aggregate ::
  "(real \<times> real \<times> real \<Rightarrow> string) \<Rightarrow> (py_exception + real \<times> real \<times> real) list \<Rightarrow> bool
     \<Rightarrow> (real \<times> real) option block_outcome" where
  "centroid_aggregate py_str results state =
     (case centroid_sums py_str state results (0, 0, 0) of
        Inl e \<Rightarrow> Raises e None
      | Inr (sum_x, sum_y, sum_weight) \<Rightarrow>
          if 0 < sum_weight then
            (case py_div sum_x sum_weight of
               Inl e \<Rightarrow> Raises e (Some (0, 0))
             | Inr sum_x' \<Rightarrow>
                 (case py_div sum_y sum_weight of
                    Inl e \<Rightarrow> Raises e (Some (0, 0))
                  | Inr sum_y' \<Rightarrow> Completes (Some (sum_x', sum_y'))))
          else Completes (Some (sum_x, sum_y)))"

text \<open>\<^verbatim>\<open>centroid(node, channel, step)\<close>; \<open>None\<close> outside is a call that does not return.\<close>

definition centroid ::
  "('e, real \<times> real \<times> real) engine \<Rightarrow> (nat \<Rightarrow> bool) \<Rightarrow> bool \<Rightarrow> (real \<times> real \<times> real \<Rightarrow> string)
     \<Rightarrow> node \<Rightarrow> int \<Rightarrow> (py_exception + (real \<times> real) option) option" where
  "centroid mp isCancelled suppress py_str nd step =
     (case poll mp isCancelled 0
             (mp_process_by_chunks mp (\<lambda>sub. p_centroid sub (node_sample nd) step)
                (bbox_region nd)) of
        None \<Rightarrow> None
      | Some (Inl e) \<Rightarrow> Some (with_exit suppress (Raises e (Some (0, 0))))
      | Some (Inr e') \<Rightarrow>
          Some (with_exit suppress
                  (centroid_aggregate py_str (mp_results mp e') (mp_state mp e'))))"

text \<open>
  The loop \<^verbatim>\<open>for r in mp.results\<close> of \<^verbatim>\<open>max_value\<close> on the variable \<open>max_val\<close>. The
  assignment before its \<^verbatim>\<open>raise\<close> is to a variable named \<^verbatim>\<open>centroid\<close>, so \<open>max_val\<close>
  keeps its value.
\<close>

fun max_value_aggregate ::
  "(real \<Rightarrow> string) \<Rightarrow> bool \<Rightarrow> (py_exception + real) list \<Rightarrow> real \<Rightarrow> real block_outcome" where
  "max_value_aggregate py_str state [] max_val = Completes max_val"
| "max_value_aggregate py_str state (r # rs) max_val =
     (if \<not> state \<or> isl r then Raises (Exception (str_result py_str r)) max_val
      else
        (case r of
           Inr v \<Rightarrow> max_value_aggregate py_str state rs (max max_val v)
         | Inl e \<Rightarrow> Raises (Exception (str_exception e)) max_val))"

text \<open>\<^verbatim>\<open>max_value(node, channel, step)\<close>; the value returned is a float or \<open>None\<close>.\<close>

definition max_value ::
  "('e, real) engine \<Rightarrow> (nat \<Rightarrow> bool) \<Rightarrow> bool \<Rightarrow> (real \<Rightarrow> string)
     \<Rightarrow> node \<Rightarrow> int \<Rightarrow> (py_exception + real option) option" where
  "max_value mp isCancelled suppress py_str nd step =
     (case poll mp isCancelled 0
             (mp_process_by_chunks mp (\<lambda>sub. p_max_value sub (node_sample nd) step)
                (bbox_region nd)) of
        None \<Rightarrow> None
      | Some (Inl e) \<Rightarrow> Some (map_sum id Some (with_exit suppress (Raises e 0)))
      | Some (Inr e') \<Rightarrow>
          Some (map_sum id Some
                  (with_exit suppress
                     (max_value_aggregate py_str (mp_state mp e') (mp_results mp e') 0))))"

section \<open>Reference definitions\<close>

text \<open>
  The values \<^verbatim>\<open>xrange(i, stop, step)\<close> yields for a step other than zero, as a list, and
  the pixels a worker samples, in the order of its two loops.
\<close>

function xrange_list :: "int \<Rightarrow> int \<Rightarrow> int \<Rightarrow> int list" where
  "xrange_list i stop step =
     (if (0 < step \<and> i < stop) \<or> (step < 0 \<and> stop < i)
      then i # xrange_list (i + step) stop step else [])"
  by pat_completeness auto
termination
  by (relation "measure (\<lambda>(i, stop, step). nat (if 0 < step then stop - i else i - stop))") auto

declare xrange_list.simps [simp del]

definition visited :: "Bounds \<Rightarrow> int \<Rightarrow> (int \<times> int) list" where
  "visited region step =
     concat (map (\<lambda>y. map (\<lambda>x. (x, y)) (xrange_list (x1 region) (x2 region + 1) step))
                 (xrange_list (y1 region) (y2 region + 1) step))"

text \<open>A loop body applied to the elements of a list in turn, up to the first exception.\<close>

primrec fold_exc ::
  "('a \<Rightarrow> 's \<Rightarrow> py_exception + 's) \<Rightarrow> 'a list \<Rightarrow> 's \<Rightarrow> py_exception + 's" where
  "fold_exc body [] s = Inr s"
| "fold_exc body (a # as) s =
     (case body a s of Inl e \<Rightarrow> Inl e | Inr s' \<Rightarrow> fold_exc body as s')"

text \<open>
  The grid of the specification: the points \<open>a + k * step\<close> up to \<open>b\<close> on each axis, rows
  from \<open>y1\<close> upwards and each row from \<open>x1\<close> upwards.
\<close>

definition progression :: "int \<Rightarrow> int \<Rightarrow> int \<Rightarrow> int list" where
  "progression a b step = map (\<lambda>k. a + int k * step) [0..<nat ((b - a) div step + 1)]"

definition grid_points :: "Bounds \<Rightarrow> int \<Rightarrow> (int \<times> int) list" where
  "grid_points region step =
     concat (map (\<lambda>y. map (\<lambda>x. (x, y)) (progression (x1 region) (x2 region) step))
                 (progression (y1 region) (y2 region) step))"

text \<open>
  The naive weighted means of the specification over a list of pixels: sums of
  \<open>value * x\<close>, of \<open>value * y\<close> and of \<open>value\<close>, each divided by the number of samples.
\<close>

definition naive_centroid ::
  "(int \<Rightarrow> int \<Rightarrow> real) \<Rightarrow> (int \<times> int) list \<Rightarrow> real \<times> real \<times> real" where
  "naive_centroid f ps =
     ((\<Sum>(x, y)\<leftarrow>ps. f x y * of_int x) / real (length ps),
      (\<Sum>(x, y)\<leftarrow>ps. f x y * of_int y) / real (length ps),
      (\<Sum>(x, y)\<leftarrow>ps. f x y) / real (length ps))"

text \<open>The geometric center of an inclusive rectangle.\<close>

definition center :: "Bounds \<Rightarrow> real \<times> real" where
  "center region =
     ((of_int (x1 region) + of_int (x2 region)) / 2,
      (of_int (y1 region) + of_int (y2 region)) / 2)"

text \<open>
  Modelled from the spec: the multi-process reduction engine and the region partitioner
  (sections 4.1 and 4.3), which the module imports from another package. The
  partitioner is any function \<open>split\<close> from a region to its sub-regions. One job per
  sub-region is pending, in the order of completion; \<open>wait_one\<close> moves the next finished
  job to the results; a job that never returns is never collected. The engine works
  while jobs are pending and no abort was issued; its state is success when it was not
  aborted and no collected job failed.
\<close>

record 'v pool =
  pending :: "(py_exception + 'v) option list"
  collected :: "(py_exception + 'v) list"
  aborted :: bool

definition pool_engine :: "(Bounds \<Rightarrow> Bounds list) \<Rightarrow> ('v pool, 'v) engine" where
  "pool_engine split =
     \<lparr>mp_process_by_chunks =
        (\<lambda>f region. \<lparr>pending = map f (split region), collected = [], aborted = False\<rparr>),
      mp_is_working = (\<lambda>e. pending e \<noteq> [] \<and> \<not> aborted e),
      mp_abort = (\<lambda>e. e\<lparr>aborted := True\<rparr>),
      mp_wait_one =
        (\<lambda>e. case pending e of
               Some r # rs \<Rightarrow> e\<lparr>pending := rs, collected := collected e @ [r]\<rparr>
             | _ \<Rightarrow> e),
      mp_results = collected,
      mp_processes = (\<lambda>e. int (length (pending e) + length (collected e))),
      mp_state = (\<lambda>e. \<not> aborted e \<and> list_all (\<lambda>r. \<not> isl r) (collected e))\<rparr>"

text \<open>Concrete inputs for the examples below.\<close>

definition whole :: "Bounds \<Rightarrow> Bounds list" where
  "whole region = [region]"

definition cancel_at :: "nat \<Rightarrow> nat \<Rightarrow> bool" where
  "cancel_at k0 k = (k0 \<le> k)"

definition never_cancelled :: "nat \<Rightarrow> bool" where
  "never_cancelled k = False"

definition constant_sampler :: "real \<Rightarrow> sampler" where
  "constant_sampler v x y = Inr v"

definition failing_sampler :: "string \<Rightarrow> sampler" where
  "failing_sampler m x y = Inl m"

text \<open>
  Python's \<^verbatim>\<open>str\<close> on floats is not modelled; in the closed examples one fixed text
  stands for the string of any worker value.
\<close>

definition str_placeholder :: "'v \<Rightarrow> string" where
  "str_placeholder v = ''<str of a worker value>''"

text \<open>
  A partitioner that cuts a region into its first row and the rows above it, and a node
  one pixel wide and three pixels high whose channel is constant.
\<close>

definition two_bands :: "Bounds \<Rightarrow> Bounds list" where
  "two_bands region = [region\<lparr>y2 := y1 region\<rparr>, region\<lparr>y1 := y1 region + 1\<rparr>]"

definition strip_node :: "real \<Rightarrow> node" where
  "strip_node v = \<lparr>bbox_x = 0, bbox_y = 0, bbox_w = 1, bbox_h = 3, node_sample = constant_sampler v\<rparr>"

section \<open>The loops as folds over the sampled pixels\<close>

lemma for_xrange_fold:
  "step \<noteq> 0 \<Longrightarrow>
   for_xrange (\<lambda>i s. Some (body i s)) i stop step s = Some (fold_exc body (xrange_list i stop step) s)"
proof (induction i stop step arbitrary: s rule: xrange_list.induct)
  case (1 i stop step)
  show ?case
  proof (cases "(0 < step \<and> i < stop) \<or> (step < 0 \<and> stop < i)")
    case True
    have u1: "for_xrange (\<lambda>i s. Some (body i s)) i stop step s =
          (case body i s of Inl e \<Rightarrow> Some (Inl e)
           | Inr s' \<Rightarrow> for_xrange (\<lambda>i s. Some (body i s)) (i + step) stop step s')"
      using True 1(2) by (subst for_xrange.simps) auto
    have u2: "xrange_list i stop step = i # xrange_list (i + step) stop step"
      using True by (subst xrange_list.simps) simp
    show ?thesis
      unfolding u1 u2 using 1(1)[OF True 1(2)] by (simp split: sum.split)
  next
    case False
    have u1: "for_xrange (\<lambda>i s. Some (body i s)) i stop step s = Some (Inr s)"
      using False 1(2) by (subst for_xrange.simps) auto
    have u2: "xrange_list i stop step = []"
      using False by (subst xrange_list.simps) simp
    show ?thesis
      unfolding u1 u2 by simp
  qed
qed

lemma fold_exc_append:
  "fold_exc body (as @ bs) s = (case fold_exc body as s of Inl e \<Rightarrow> Inl e | Inr s' \<Rightarrow> fold_exc body bs s')"
  by (induction as arbitrary: s) (auto split: sum.split)

lemma fold_exc_row:
  "fold_exc (\<lambda>p. body (fst p) (snd p)) (map (\<lambda>x. (x, y)) xs) s = fold_exc (\<lambda>x. body x y) xs s"
  by (induction xs arbitrary: s) (auto split: sum.split)

lemma fold_exc_grid:
  "fold_exc (\<lambda>y. fold_exc (\<lambda>x. body x y) xs) ys s =
   fold_exc (\<lambda>p. body (fst p) (snd p)) (concat (map (\<lambda>y. map (\<lambda>x. (x, y)) xs) ys)) s"
  by (induction ys arbitrary: s) (auto simp: fold_exc_append fold_exc_row split: sum.split)

lemma xrange_list_progression:
  "0 < step \<Longrightarrow> xrange_list a (b + 1) step = progression a b step"
proof (induction a "b + 1" step rule: xrange_list.induct)
  case (1 i step)
  show ?case
  proof (cases "i < b + 1")
    case True
    have "(b - i) div step = (step + (b - (i + step))) div step" by simp
    also have "\<dots> = (b - (i + step)) div step + 1"
      using 1(2) by (simp only: div_add_self1)
    finally have d: "(b - (i + step)) div step = (b - i) div step - 1" by simp
    have nn: "0 \<le> (b - i) div step" using True 1(2) by (simp add: pos_imp_zdiv_nonneg_iff)
    obtain n where n: "nat ((b - i) div step + 1) = Suc n" "nat ((b - i) div step) = n"
      using nn by (simp add: nat_add_distrib)
    have "xrange_list i (b + 1) step = i # progression (i + step) b step"
      using 1 True by (subst xrange_list.simps) simp
    also have "\<dots> = progression i b step"
      unfolding progression_def d n using n
      by (simp add: upt_conv_Cons map_Suc_upt[symmetric] algebra_simps del: upt_Suc)
    finally show ?thesis .
  next
    case False
    then have "(b - i) div step < 0"
      using 1(2) by (simp add: div_neg_pos_less0)
    then have "(b - i) div step + 1 \<le> 0" by simp
    then show ?thesis
      using False 1(2) by (subst xrange_list.simps) (simp add: progression_def)
  qed
qed


lemma for_xrange_nest:
  assumes "step \<noteq> 0"
  shows "for_xrange (\<lambda>y. for_xrange (\<lambda>x st. Some (body x y st)) a b step) c d step s =
         Some (fold_exc (\<lambda>p. body (fst p) (snd p))
                 (concat (map (\<lambda>y. map (\<lambda>x. (x, y)) (xrange_list a b step)) (xrange_list c d step))) s)"
proof -
  have inner: "(\<lambda>y. for_xrange (\<lambda>x st. Some (body x y st)) a b step) =
               (\<lambda>y st. Some (fold_exc (\<lambda>x. body x y) (xrange_list a b step) st))"
    using assms by (intro ext) (rule for_xrange_fold)
  show ?thesis
    unfolding inner using assms by (simp add: for_xrange_fold fold_exc_grid)
qed

lemma visited_grid: "0 < step \<Longrightarrow> visited region step = grid_points region step"
  by (simp add: visited_def grid_points_def xrange_list_progression)

lemma p_centroid_fold:
  "step \<noteq> 0 \<Longrightarrow>
   p_centroid region sample step =
     Some (map_sum id (\<lambda>(mean_x, mean_y, mean_weight, n). (mean_x, mean_y, mean_weight))
            (fold_exc (\<lambda>p. centroid_step sample (fst p) (snd p)) (visited region step) (0, 0, 0, 0)))"
  unfolding p_centroid_def visited_def
  by (simp add: for_xrange_nest split: sum.split)

lemma p_max_value_fold:
  "step \<noteq> 0 \<Longrightarrow>
   p_max_value region sample step =
     Some (fold_exc (\<lambda>p. max_value_step sample (fst p) (snd p)) (visited region step) 0)"
  unfolding p_max_value_def visited_def
  by (simp add: for_xrange_nest)

lemma welford:
  "0 \<le> n \<Longrightarrow>
   \<exists>mx my mw.
     fold_exc (\<lambda>p. centroid_step (\<lambda>x y. Inr (f x y)) (fst p) (snd p)) ps (mean_x, mean_y, mean_weight, n) =
       Inr (mx, my, mw, n + int (length ps)) \<and>
     mx * of_int (n + int (length ps)) = mean_x * of_int n + (\<Sum>(x, y)\<leftarrow>ps. f x y * of_int x) \<and>
     my * of_int (n + int (length ps)) = mean_y * of_int n + (\<Sum>(x, y)\<leftarrow>ps. f x y * of_int y) \<and>
     mw * of_int (n + int (length ps)) = mean_weight * of_int n + (\<Sum>(x, y)\<leftarrow>ps. f x y)"
proof (induction ps arbitrary: mean_x mean_y mean_weight n)
  case Nil
  then show ?case by simp
next
  case (Cons p ps)
  obtain x y where p: "p = (x, y)" by (cases p)
  have n1: "real_of_int (n + 1) \<noteq> 0" using Cons.prems by linarith
  define w where "w = f x y"
  define mx1 where "mx1 = mean_x + (w * of_int x - mean_x) / of_int (n + 1)"
  define my1 where "my1 = mean_y + (w * of_int y - mean_y) / of_int (n + 1)"
  define mw1 where "mw1 = mean_weight + (w - mean_weight) / of_int (n + 1)"
  have step1: "centroid_step (\<lambda>x y. Inr (f x y)) x y (mean_x, mean_y, mean_weight, n) =
               Inr (mx1, my1, mw1, n + 1)"
    using n1 by (simp add: py_div_def Let_def mx1_def my1_def mw1_def w_def)
  have e1: "mx1 * of_int (n + 1) = mean_x * of_int n + w * of_int x"
    using n1 unfolding mx1_def by (simp add: field_simps)
  have e2: "my1 * of_int (n + 1) = mean_y * of_int n + w * of_int y"
    using n1 unfolding my1_def by (simp add: field_simps)
  have e3: "mw1 * of_int (n + 1) = mean_weight * of_int n + w"
    using n1 unfolding mw1_def by (simp add: field_simps)
  from Cons.IH[of "n + 1" mx1 my1 mw1] Cons.prems
  obtain mx my mw where
    r: "fold_exc (\<lambda>p. centroid_step (\<lambda>x y. Inr (f x y)) (fst p) (snd p)) ps (mx1, my1, mw1, n + 1) =
          Inr (mx, my, mw, n + 1 + int (length ps))"
    and a: "mx * of_int (n + 1 + int (length ps)) = mx1 * of_int (n + 1) + (\<Sum>(x, y)\<leftarrow>ps. f x y * of_int x)"
    and b: "my * of_int (n + 1 + int (length ps)) = my1 * of_int (n + 1) + (\<Sum>(x, y)\<leftarrow>ps. f x y * of_int y)"
    and c: "mw * of_int (n + 1 + int (length ps)) = mw1 * of_int (n + 1) + (\<Sum>(x, y)\<leftarrow>ps. f x y)"
    by force
  have len: "n + int (length (p # ps)) = n + 1 + int (length ps)" by simp
  show ?case
    unfolding len
    apply (rule exI[of _ mx], rule exI[of _ my], rule exI[of _ mw])
    using r a b c e1 e2 e3 step1 by (simp add: p w_def)
qed

lemma centroid_fold_naive:
  assumes "ps \<noteq> []"
  shows "fold_exc (\<lambda>p. centroid_step (\<lambda>x y. Inr (f x y)) (fst p) (snd p)) ps (0, 0, 0, 0) =
         Inr (fst (naive_centroid f ps), fst (snd (naive_centroid f ps)),
              snd (snd (naive_centroid f ps)), int (length ps))"
proof -
  from welford[of 0 f ps 0 0 0] obtain mx my mw where
    r: "fold_exc (\<lambda>p. centroid_step (\<lambda>x y. Inr (f x y)) (fst p) (snd p)) ps (0, 0, 0, 0) =
          Inr (mx, my, mw, int (length ps))"
    and a: "mx * real (length ps) = (\<Sum>(x, y)\<leftarrow>ps. f x y * of_int x)"
    and b: "my * real (length ps) = (\<Sum>(x, y)\<leftarrow>ps. f x y * of_int y)"
    and c: "mw * real (length ps) = (\<Sum>(x, y)\<leftarrow>ps. f x y)"
    by auto
  have l: "real (length ps) \<noteq> 0" using assms by simp
  have "mx = (\<Sum>(x, y)\<leftarrow>ps. f x y * of_int x) / real (length ps)"
    using a l by (simp add: field_simps)
  moreover have "my = (\<Sum>(x, y)\<leftarrow>ps. f x y * of_int y) / real (length ps)"
    using b l by (simp add: field_simps)
  moreover have "mw = (\<Sum>(x, y)\<leftarrow>ps. f x y) / real (length ps)"
    using c l by (simp add: field_simps)
  ultimately show ?thesis
    using r by (simp add: naive_centroid_def)
qed


lemma le_div_step:
  assumes "0 < (step::int)"
  shows "(k * step \<le> c) = (k \<le> c div step)"
proof
  assume "k * step \<le> c"
  then have "(k * step) div step \<le> c div step" using assms by (rule zdiv_mono1)
  then show "k \<le> c div step" using assms by simp
next
  assume h: "k \<le> c div step"
  have "k * step \<le> (c div step) * step" using h assms by (simp add: mult_right_mono)
  also have "\<dots> \<le> (c div step) * step + c mod step"
    using pos_mod_sign[OF assms, of c] by linarith
  also have "\<dots> = c" by simp
  finally show "k * step \<le> c" .
qed

lemma Max_insert_max:
  "finite S \<Longrightarrow> Max (insert (max m v) S) = Max (insert (m::real) (insert v S))"
  by (cases "S = {}") (simp_all add: max.assoc)

lemma progression_set:
  assumes "0 < step"
  shows "set (progression a b step) = {a + int k * step | k. a + int k * step \<le> b}"
proof -
  have iff: "(k < nat ((b - a) div step + 1)) = (a + int k * step \<le> b)" for k
  proof -
    have "(a + int k * step \<le> b) = (int k * step \<le> b - a)" by linarith
    also have "\<dots> = (int k \<le> (b - a) div step)"
      using assms by (rule le_div_step)
    also have "\<dots> = (k < nat ((b - a) div step + 1))" by linarith
    finally show ?thesis by simp
  qed
  show ?thesis
    unfolding progression_def by (auto simp: iff)
qed

lemma progression_distinct: "0 < step \<Longrightarrow> distinct (progression a b step)"
  unfolding progression_def by (simp add: distinct_map inj_on_def)

lemma progression_nonempty: "0 < step \<Longrightarrow> a \<le> b \<Longrightarrow> progression a b step \<noteq> []"
  unfolding progression_def using pos_imp_zdiv_nonneg_iff[of step "b - a"] by simp

lemma distinct_rows:
  "distinct xs \<Longrightarrow> distinct ys \<Longrightarrow> distinct (concat (map (\<lambda>y. map (\<lambda>x. (x, y)) xs) ys))"
  by (induction ys) (auto simp: distinct_map inj_on_def)

lemma length_rows: "length (concat (map (\<lambda>y. map (\<lambda>x. (x, y)) xs) ys)) = length xs * length ys"
  by (induction ys) auto

lemma grid_points_set:
  "0 < step \<Longrightarrow>
   set (grid_points region step) =
     {(x1 region + int i * step, y1 region + int j * step) | i j.
        x1 region + int i * step \<le> x2 region \<and> y1 region + int j * step \<le> y2 region}"
  unfolding grid_points_def by (auto simp: progression_set)

lemma grid_points_distinct: "0 < step \<Longrightarrow> distinct (grid_points region step)"
  unfolding grid_points_def by (simp add: distinct_rows progression_distinct)

lemma grid_points_nonempty:
  "0 < step \<Longrightarrow> x1 region \<le> x2 region \<Longrightarrow> y1 region \<le> y2 region \<Longrightarrow> grid_points region step \<noteq> []"
  unfolding grid_points_def using progression_nonempty[of step "x1 region" "x2 region"]
    progression_nonempty[of step "y1 region" "y2 region"]
  by (cases "progression (y1 region) (y2 region) step") auto

lemma max_fold:
  "fold_exc (\<lambda>p. max_value_step (\<lambda>x y. Inr (f x y)) (fst p) (snd p)) ps m =
   Inr (Max (insert m ((\<lambda>(x, y). f x y) ` set ps)))"
proof (induction ps arbitrary: m)
  case Nil
  then show ?case by simp
next
  case (Cons p ps)
  obtain x y where p: "p = (x, y)" by (cases p)
  have "Max (insert (max m (f x y)) ((\<lambda>(x, y). f x y) ` set ps)) =
        Max (insert m (insert (f x y) ((\<lambda>(x, y). f x y) ` set ps)))"
    by (rule Max_insert_max[symmetric, THEN sym]) simp
  then show ?case
    using Cons.IH[of "max m (f x y)"] by (simp add: p max_value_step_def)
qed

lemma centroid_step_cases:
  "0 \<le> n \<Longrightarrow>
   (\<exists>m. centroid_step sample x y (a, b, c, n) = Inl (SampleError m)) \<or>
   (\<exists>a' b' c'. centroid_step sample x y (a, b, c, n) = Inr (a', b', c', n + 1))"
  by (cases "sample x y") (auto simp: py_div_def Let_def)

lemma centroid_fold_no_zero_division:
  "0 \<le> n \<Longrightarrow>
   fold_exc (\<lambda>p. centroid_step sample (fst p) (snd p)) ps (a, b, c, n) \<noteq> Inl ZeroDivisionError"
proof (induction ps arbitrary: a b c n)
  case Nil
  then show ?case by simp
next
  case (Cons p ps)
  from centroid_step_cases[OF Cons.prems, of sample "fst p" "snd p" a b c]
  show ?case
  proof
    assume "\<exists>m. centroid_step sample (fst p) (snd p) (a, b, c, n) = Inl (SampleError m)"
    then show ?thesis by auto
  next
    assume "\<exists>a' b' c'. centroid_step sample (fst p) (snd p) (a, b, c, n) = Inr (a', b', c', n + 1)"
    then obtain a' b' c' where
      "centroid_step sample (fst p) (snd p) (a, b, c, n) = Inr (a', b', c', n + 1)" by blast
    then show ?thesis
      using Cons.IH[of "n + 1" a' b' c'] Cons.prems by simp
  qed
qed

section \<open>The workers\<close>

text \<open>
  C4. For a region with \<open>x1 \<le> x2\<close> and \<open>y1 \<le> y2\<close> and a step of at least 1, the pixels
  \<^verbatim>\<open>_centroid\<close> samples are exactly the grid points \<open>(x1 + i * step, y1 + j * step)\<close> inside
  the inclusive rectangle, each once: for every sampler the worker is its loop body run
  over that grid. When no sample raises, the incremental means it returns are the naive
  ones: the sums of \<open>value * x\<close>, \<open>value * y\<close> and \<open>value\<close> over the grid, divided by the
  number of samples.
\<close>

theorem centroid_worker_refines_naive:
  assumes "x1 region \<le> x2 region" and "y1 region \<le> y2 region" and "1 \<le> step"
  shows "set (grid_points region step) =
           {(x1 region + int i * step, y1 region + int j * step) | i j.
              x1 region + int i * step \<le> x2 region \<and> y1 region + int j * step \<le> y2 region}
         \<and> distinct (grid_points region step)
         \<and> p_centroid region sample step =
             Some (map_sum id (\<lambda>(mean_x, mean_y, mean_weight, n). (mean_x, mean_y, mean_weight))
                    (fold_exc (\<lambda>p. centroid_step sample (fst p) (snd p))
                       (grid_points region step) (0, 0, 0, 0)))
         \<and> p_centroid region (\<lambda>x y. Inr (f x y)) step =
             Some (Inr (naive_centroid f (grid_points region step)))"
proof -
  have pos: "0 < step" and nz: "step \<noteq> 0" using assms(3) by simp_all
  have ne: "grid_points region step \<noteq> []"
    using pos assms(1,2) by (rule grid_points_nonempty)
  have a: "p_centroid region s step =
             Some (map_sum id (\<lambda>(mean_x, mean_y, mean_weight, n). (mean_x, mean_y, mean_weight))
                    (fold_exc (\<lambda>p. centroid_step s (fst p) (snd p))
                       (grid_points region step) (0, 0, 0, 0)))" for s
    using p_centroid_fold[OF nz, of region s] visited_grid[OF pos, of region] by simp
  have b: "p_centroid region (\<lambda>x y. Inr (f x y)) step =
             Some (Inr (naive_centroid f (grid_points region step)))"
    unfolding a centroid_fold_naive[OF ne] by simp
  show ?thesis
    using grid_points_set[OF pos, of region] grid_points_distinct[OF pos, of region] a b
    by blast
qed

theorem centroid_worker_refines_naive_witness:
  "p_centroid \<lparr>x1 = 0, y1 = 0, x2 = 2, y2 = 1\<rparr> (\<lambda>x y. Inr (of_int x + 1)) 2 = Some (Inr (3, 0, 2))"
proof -
  have g: "grid_points \<lparr>x1 = 0, y1 = 0, x2 = 2, y2 = 1\<rparr> 2 = [(0, 0), (2, 0)]"
    by (simp add: grid_points_def progression_def upt_conv_Cons)
  show ?thesis
    using centroid_worker_refines_naive[of "\<lparr>x1 = 0, y1 = 0, x2 = 2, y2 = 1\<rparr>" 2 "constant_sampler 0" "\<lambda>x y. of_int x + 1"]
    by (simp add: g naive_centroid_def)
qed

lemma Max_insert_zero:
  "finite S \<Longrightarrow> \<forall>s\<in>S. s < (0::real) \<Longrightarrow> Max (insert 0 S) = 0"
  by (rule Max_eqI) auto

lemma visited_small: "visited \<lparr>x1 = 0, y1 = 0, x2 = 1, y2 = 0\<rparr> 1 = [(0, 0), (1, 0)]"
  by (simp add: visited_def xrange_list.simps)

text \<open>
  C7. \<^verbatim>\<open>_max_value\<close> starts its accumulator at 0.0 and, for every region and every step
  that \<^verbatim>\<open>xrange\<close> accepts, returns the maximum of 0.0 and the values at the pixels it
  samples; so when all of them are strictly negative it returns 0.0.
\<close>

theorem max_worker_seeded_with_zero:
  assumes "step \<noteq> 0"
  shows "p_max_value region (\<lambda>x y. Inr (f x y)) step =
           Some (Inr (Max (insert 0 ((\<lambda>(x, y). f x y) ` set (visited region step)))))
         \<and> ((\<forall>p\<in>set (visited region step). f (fst p) (snd p) < 0) \<longrightarrow>
              p_max_value region (\<lambda>x y. Inr (f x y)) step = Some (Inr 0))"
proof -
  have a: "p_max_value region (\<lambda>x y. Inr (f x y)) step =
           Some (Inr (Max (insert 0 ((\<lambda>(x, y). f x y) ` set (visited region step)))))"
    using p_max_value_fold[OF assms, of region "\<lambda>x y. Inr (f x y)"] by (simp add: max_fold)
  have b: "Max (insert 0 ((\<lambda>(x, y). f x y) ` set (visited region step))) = 0"
    if "\<forall>p\<in>set (visited region step). f (fst p) (snd p) < 0"
    using that by (intro Max_insert_zero) (auto simp: case_prod_beta)
  show ?thesis using a b by simp
qed

theorem max_worker_seeded_with_zero_witness:
  "p_max_value \<lparr>x1 = 0, y1 = 0, x2 = 1, y2 = 0\<rparr> (\<lambda>x y. Inr (- 1 - of_int x)) 1 = Some (Inr 0)"
  using max_worker_seeded_with_zero[of 1 "\<lparr>x1 = 0, y1 = 0, x2 = 1, y2 = 0\<rparr>" "\<lambda>x y. - 1 - of_int x"]
  by (simp add: visited_small)

text \<open>
  C8. \<^verbatim>\<open>_centroid\<close> never divides by zero, whatever the region, the sampler and the step:
  the count \<open>n\<close> is at least 1 at each of its three divisions. The aggregation of
  \<^verbatim>\<open>centroid\<close> never does either: it divides by the summed weight only when that is
  strictly positive.
\<close>

theorem centroid_no_zero_division:
  "p_centroid region sample step \<noteq> Some (Inl ZeroDivisionError)
   \<and> centroid_aggregate py_str results state \<noteq> Raises ZeroDivisionError v"
proof
  show "p_centroid region sample step \<noteq> Some (Inl ZeroDivisionError)"
  proof (cases "step = 0")
    case True
    then show ?thesis
      by (simp add: p_centroid_def for_xrange.simps)
  next
    case False
    obtain r where r: "fold_exc (\<lambda>p. centroid_step sample (fst p) (snd p))
                         (visited region step) (0, 0, 0, 0) = r" by simp
    have "r \<noteq> Inl ZeroDivisionError"
      using centroid_fold_no_zero_division[of 0 sample "visited region step" 0 0 0] r by simp
    then show ?thesis
      unfolding p_centroid_fold[OF False] r by (cases r) auto
  qed
next
  have sums: "centroid_sums py_str state rs acc \<noteq> Inl ZeroDivisionError" for rs acc
    by (induction py_str state rs acc rule: centroid_sums.induct) (auto split: sum.splits)
  show "centroid_aggregate py_str results state \<noteq> Raises ZeroDivisionError v"
    using sums[of results "(0, 0, 0)"]
    by (auto simp: centroid_aggregate_def py_div_def split: sum.splits prod.splits)
qed

text \<open>
  C10. For every region, every sampler and every step of at least 1, \<^verbatim>\<open>_centroid\<close> and
  \<^verbatim>\<open>_max_value\<close> terminate, with a value or with the exception of a sample; when no
  sample raises, the loop body runs once for each point of the two finite progressions.
\<close>

theorem workers_terminate:
  assumes "1 \<le> step"
  shows "(\<exists>r. p_centroid region sample step = Some r)
         \<and> (\<exists>r. p_max_value region sample step = Some r)
         \<and> length (visited region step) =
             nat ((x2 region - x1 region) div step + 1) * nat ((y2 region - y1 region) div step + 1)"
proof -
  have nz: "step \<noteq> 0" and pos: "0 < step" using assms by simp_all
  have "length (visited region step) =
          nat ((x2 region - x1 region) div step + 1) * nat ((y2 region - y1 region) div step + 1)"
    unfolding visited_grid[OF pos] grid_points_def length_rows by (simp add: progression_def)
  then show ?thesis
    using p_centroid_fold[OF nz, of region sample] p_max_value_fold[OF nz, of region sample]
    by simp
qed

theorem workers_terminate_witness:
  "(\<exists>r. p_centroid \<lparr>x1 = 0, y1 = 0, x2 = 4, y2 = 2\<rparr> (failing_sampler ''no channel'') 2 = Some r)
   \<and> (\<exists>r. p_max_value \<lparr>x1 = 0, y1 = 0, x2 = 4, y2 = 2\<rparr> (failing_sampler ''no channel'') 2 = Some r)
   \<and> length (visited \<lparr>x1 = 0, y1 = 0, x2 = 4, y2 = 2\<rparr> 2) = 6"
  using workers_terminate[of 2 "\<lparr>x1 = 0, y1 = 0, x2 = 4, y2 = 2\<rparr>" "failing_sampler ''no channel''"]
  by simp

section \<open>The aggregation and the public operations\<close>

lemma max_value_aggregate_nonneg:
  "0 \<le> m \<Longrightarrow>
   max_value_aggregate py_str state rs m = Completes v \<or>
   max_value_aggregate py_str state rs m = Raises e v \<Longrightarrow> 0 \<le> v"
  by (induction py_str state rs m rule: max_value_aggregate.induct)
     (auto split: if_splits sum.splits)

lemma max_fold_ge:
  "fold_exc (\<lambda>p. max_value_step sample (fst p) (snd p)) ps m = Inr v \<Longrightarrow> m \<le> v"
proof (induction ps arbitrary: m)
  case Nil
  then show ?case by simp
next
  case (Cons p ps)
  show ?case
  proof (cases "sample (fst p) (snd p)")
    case (Inl msg)
    then show ?thesis using Cons.prems by (simp add: max_value_step_def)
  next
    case (Inr b)
    then have "max m b \<le> v"
      using Cons.prems by (intro Cons.IH) (simp add: max_value_step_def)
    then show ?thesis by simp
  qed
qed

lemma pool_engine_fields:
  "mp_process_by_chunks (pool_engine split) f region =
     \<lparr>pending = map f (split region), collected = [], aborted = False\<rparr>"
  "mp_is_working (pool_engine split) e = (pending e \<noteq> [] \<and> \<not> aborted e)"
  "mp_abort (pool_engine split) e = e\<lparr>aborted := True\<rparr>"
  "mp_wait_one (pool_engine split) e =
     (case pending e of
        Some r # rs \<Rightarrow> e\<lparr>pending := rs, collected := collected e @ [r]\<rparr>
      | _ \<Rightarrow> e)"
  "mp_results (pool_engine split) e = collected e"
  "mp_processes (pool_engine split) e = int (length (pending e) + length (collected e))"
  "mp_state (pool_engine split) e = (\<not> aborted e \<and> list_all (\<lambda>r. \<not> isl r) (collected e))"
  by (simp_all add: pool_engine_def)

lemma poll_pool_run:
  "poll (pool_engine split) never_cancelled k
     \<lparr>pending = map Some rs, collected = cs, aborted = False\<rparr> =
   Some (Inr \<lparr>pending = [], collected = cs @ rs, aborted = False\<rparr>)"
proof (induction rs arbitrary: cs k)
  case Nil
  show ?case by (subst poll.simps) (simp add: pool_engine_fields)
next
  case (Cons r rs)
  show ?case
    by (subst poll.simps) (simp add: pool_engine_fields never_cancelled_def Cons.IH)
qed

lemma poll_pool_cancelled:
  "poll (pool_engine split) (cancel_at 0) 0
     \<lparr>pending = j # js, collected = cs, aborted = False\<rparr> =
   Some (Inr \<lparr>pending = j # js, collected = cs, aborted = True\<rparr>)"
  by (subst poll.simps) (simp add: pool_engine_fields cancel_at_def)

lemma strip_region: "bbox_region (strip_node v) = \<lparr>x1 = 0, y1 = 0, x2 = 0, y2 = 2\<rparr>"
  by (simp add: bbox_region_def strip_node_def)

lemma strip_sample: "node_sample (strip_node v) = constant_sampler v"
  by (simp add: strip_node_def)

lemma p_centroid_first_band:
  "p_centroid \<lparr>x1 = 0, y1 = 0, x2 = 0, y2 = 0\<rparr> (constant_sampler v) 1 = Some (Inr (0, 0, v))"
  by (simp add: p_centroid_fold visited_def xrange_list.simps constant_sampler_def py_div_def)

lemma p_centroid_second_band:
  "p_centroid \<lparr>x1 = 0, y1 = 1, x2 = 0, y2 = 2\<rparr> (constant_sampler v) 1 = Some (Inr (0, 3 * v / 2, v))"
  by (simp add: p_centroid_fold visited_def xrange_list.simps constant_sampler_def py_div_def
      field_simps)

lemma centroid_sums_raises:
  "rs \<noteq> [] \<Longrightarrow> \<not> state \<or> (\<exists>r\<in>set rs. isl r) \<Longrightarrow>
   \<exists>m. centroid_sums py_str state rs acc = Inl (Exception m)"
proof (induction py_str state rs acc rule: centroid_sums.induct)
  case (1 py_str state acc)
  then show ?case by simp
next
  case (2 py_str state r rs sum_x sum_y sum_weight)
  show ?case
  proof (cases "\<not> state \<or> isl r")
    case True
    then show ?thesis by auto
  next
    case False
    then obtain a b c where r: "r = Inr (a, b, c)" by (cases r) auto
    have ex: "\<exists>r\<in>set rs. isl r" using False "2.prems"(2) by auto
    then have "rs \<noteq> []" by auto
    then show ?thesis
      using "2.IH"[OF False r refl refl] ex False by (simp add: r)
  qed
qed

lemma max_value_aggregate_raises:
  "rs \<noteq> [] \<Longrightarrow> \<not> state \<or> (\<exists>r\<in>set rs. isl r) \<Longrightarrow>
   \<exists>m v. max_value_aggregate py_str state rs max_val = Raises (Exception m) v"
proof (induction py_str state rs max_val rule: max_value_aggregate.induct)
  case (1 py_str state max_val)
  then show ?case by simp
next
  case (2 py_str state r rs max_val)
  show ?case
  proof (cases "\<not> state \<or> isl r")
    case True
    then show ?thesis by auto
  next
    case False
    then obtain a where r: "r = Inr a" by (cases r) auto
    have ex: "\<exists>r\<in>set rs. isl r" using False "2.prems"(2) by auto
    then have "rs \<noteq> []" by auto
    then show ?thesis
      using "2.IH"[OF False r] ex False by (simp add: r)
  qed
qed

lemma centroid_fold_zero:
  "0 \<le> n \<Longrightarrow>
   fold_exc (\<lambda>p. centroid_step (\<lambda>x y. Inr 0) (fst p) (snd p)) ps (0, 0, 0, n) =
     Inr (0, 0, 0, n + int (length ps))"
proof (induction ps arbitrary: n)
  case Nil
  then show ?case by simp
next
  case (Cons p ps)
  have "real_of_int (n + 1) \<noteq> 0" using Cons.prems by linarith
  then have "centroid_step (\<lambda>x y. Inr 0) (fst p) (snd p) (0, 0, 0, n) = Inr (0, 0, 0, n + 1)"
    by (simp add: py_div_def)
  then show ?case
    using Cons.IH[of "n + 1"] Cons.prems by simp
qed

lemma centroid_sums_zero:
  "set rs \<subseteq> {Inr (0, 0, 0)} \<Longrightarrow> centroid_sums py_str True rs acc = Inr acc"
  by (induction py_str True rs acc rule: centroid_sums.induct) auto

lemma constant_sampler_eq: "constant_sampler v = (\<lambda>x y. Inr v)"
  by (intro ext) (simp add: constant_sampler_def)

lemma p_max_value_strip:
  "p_max_value \<lparr>x1 = 0, y1 = 0, x2 = 0, y2 = 2\<rparr> (constant_sampler v) 1 = Some (Inr (max 0 v))"
  by (simp add: p_max_value_fold visited_def xrange_list.simps constant_sampler_def
      max_value_step_def)

text \<open>
  C1. The docstrings promise \<open>None\<close> for an aborted call. Here the user cancels at the
  first poll, before any job has completed: \<^verbatim>\<open>centroid\<close> returns \<open>(0.0, 0.0)\<close> and
  \<^verbatim>\<open>max_value\<close> returns \<open>0.0\<close>, whatever \<^verbatim>\<open>__exit__\<close> does, not the no-result value.
\<close>

theorem centroid_cancelled_returns_numbers:
  "centroid (pool_engine whole) (cancel_at 0) suppress str_placeholder (strip_node 1) 1 =
     Some (Inr (Some (0, 0)))
   \<and> max_value (pool_engine whole) (cancel_at 0) suppress str_placeholder (strip_node 1) 1 =
     Some (Inr (Some 0))"
  by (simp add: centroid_def max_value_def pool_engine_fields whole_def poll_pool_cancelled
      centroid_aggregate_def)

text \<open>
  C2. With the state flag at failure the loops raise at the first collected result,
  whether or not it is an exception: here the first job returned a value and the second
  failed with \<open>boom\<close>, and the message raised is the string of the first job's value.
\<close>

theorem failure_message_of_first_result:
  "centroid_aggregate str_tuple [Inr (1, 2, 3), Inl (SampleError ''boom'')] False =
     Raises (Exception (str_tuple (1, 2, 3))) None
   \<and> max_value_aggregate str_float False [Inr 5, Inl (SampleError ''boom'')] 0 =
     Raises (Exception (str_float 5)) 0"
  by (simp add: centroid_aggregate_def str_result_def)

text \<open>
  The state flag and the exception test sit inside the loops over the results. When at
  least one result was collected and either the flag reports failure or some result is an
  exception, both operations raise, provided \<^verbatim>\<open>__exit__\<close> lets the exception through.
\<close>

lemma centroid_raises_on_failure_with_results:
  assumes "poll mp isCancelled 0
             (mp_process_by_chunks mp (\<lambda>sub. p_centroid sub (node_sample nd) step)
                (bbox_region nd)) = Some (Inr e')"
    and "mp_results mp e' \<noteq> []"
    and "\<not> mp_state mp e' \<or> (\<exists>r\<in>set (mp_results mp e'). isl r)"
  shows "\<exists>m. centroid mp isCancelled False py_str nd step = Some (Inl (Exception m))"
proof -
  obtain m where
    "centroid_sums py_str (mp_state mp e') (mp_results mp e') (0, 0, 0) = Inl (Exception m)"
    using centroid_sums_raises[OF assms(2,3), of py_str "(0, 0, 0)"] by blast
  then show ?thesis
    using assms(1) by (simp add: centroid_def centroid_aggregate_def)
qed

lemma max_value_raises_on_failure_with_results:
  assumes "poll mp isCancelled 0
             (mp_process_by_chunks mp (\<lambda>sub. p_max_value sub (node_sample nd) step)
                (bbox_region nd)) = Some (Inr e')"
    and "mp_results mp e' \<noteq> []"
    and "\<not> mp_state mp e' \<or> (\<exists>r\<in>set (mp_results mp e'). isl r)"
  shows "\<exists>m. max_value mp isCancelled False py_str nd step = Some (Inl (Exception m))"
proof -
  obtain m v where
    "max_value_aggregate py_str (mp_state mp e') (mp_results mp e') 0 = Raises (Exception m) v"
    using max_value_aggregate_raises[OF assms(2,3), of py_str 0] by blast
  then show ?thesis
    using assms(1) by (simp add: max_value_def)
qed

lemma p_max_value_first_band:
  "p_max_value \<lparr>x1 = 0, y1 = 0, x2 = 0, y2 = 0\<rparr> (constant_sampler v) 1 = Some (Inr (max 0 v))"
  by (simp add: p_max_value_fold visited_def xrange_list.simps constant_sampler_def
      max_value_step_def)

lemma p_max_value_second_band:
  "p_max_value \<lparr>x1 = 0, y1 = 1, x2 = 0, y2 = 2\<rparr> (constant_sampler v) 1 = Some (Inr (max 0 v))"
  by (simp add: p_max_value_fold visited_def xrange_list.simps constant_sampler_def
      max_value_step_def)

text \<open>
  C3. When nothing was collected the loops do not run, so the state flag is never
  tested. Here the user cancels at the first poll on a strip cut into two bands: the
  engine stops with both jobs pending and no results, its state flag reports failure, and
  still \<^verbatim>\<open>centroid\<close> returns \<open>(0.0, 0.0)\<close> and \<^verbatim>\<open>max_value\<close> returns \<open>0.0\<close>, whatever
  \<^verbatim>\<open>__exit__\<close> does.
\<close>

theorem failure_state_without_results_returns_numbers:
  "poll (pool_engine two_bands) (cancel_at 0) 0
     (mp_process_by_chunks (pool_engine two_bands)
        (\<lambda>sub. p_centroid sub (node_sample (strip_node 1)) 1) (bbox_region (strip_node 1))) =
     Some (Inr \<lparr>pending = [Some (Inr (0, 0, 1)), Some (Inr (0, 3 / 2, 1))],
                collected = [], aborted = True\<rparr>)
   \<and> \<not> mp_state (pool_engine two_bands)
         \<lparr>pending = [Some (Inr (0, 0, 1)), Some (Inr (0, 3 / 2, 1 :: real))],
          collected = [], aborted = True\<rparr>
   \<and> centroid (pool_engine two_bands) (cancel_at 0) suppress str_placeholder (strip_node 1) 1 =
       Some (Inr (Some (0, 0)))
   \<and> poll (pool_engine two_bands) (cancel_at 0) 0
       (mp_process_by_chunks (pool_engine two_bands)
          (\<lambda>sub. p_max_value sub (node_sample (strip_node 1)) 1) (bbox_region (strip_node 1))) =
       Some (Inr \<lparr>pending = [Some (Inr 1), Some (Inr 1)], collected = [], aborted = True\<rparr>)
   \<and> \<not> mp_state (pool_engine two_bands)
         \<lparr>pending = [Some (Inr (1 :: real)), Some (Inr 1)], collected = [], aborted = True\<rparr>
   \<and> max_value (pool_engine two_bands) (cancel_at 0) suppress str_placeholder (strip_node 1) 1 =
       Some (Inr (Some 0))"
proof -
  have sc: "mp_process_by_chunks (pool_engine two_bands)
              (\<lambda>sub. p_centroid sub (node_sample (strip_node 1)) 1) (bbox_region (strip_node 1)) =
            \<lparr>pending = [Some (Inr (0, 0, 1)), Some (Inr (0, 3 / 2, 1))],
             collected = [], aborted = False\<rparr>"
    by (simp add: pool_engine_fields strip_region strip_sample two_bands_def
        p_centroid_first_band p_centroid_second_band)
  have sm: "mp_process_by_chunks (pool_engine two_bands)
              (\<lambda>sub. p_max_value sub (node_sample (strip_node 1)) 1) (bbox_region (strip_node 1)) =
            \<lparr>pending = [Some (Inr 1), Some (Inr 1)], collected = [], aborted = False\<rparr>"
    by (simp add: pool_engine_fields strip_region strip_sample two_bands_def
        p_max_value_first_band p_max_value_second_band)
  show ?thesis
    unfolding centroid_def max_value_def sc sm poll_pool_cancelled
    by (simp add: pool_engine_fields centroid_aggregate_def)
qed

text \<open>
  C5. A channel that is 1.0 everywhere on the strip of rows 0 to 2, cut into the row 0 and
  the rows 1 and 2, with step 1: the call sums the two band means and divides by the
  summed weight, which gives \<open>y = 3/4\<close>, while the center of the strip is at \<open>y = 1\<close>.
\<close>

theorem centroid_mean_of_band_means:
  "centroid (pool_engine two_bands) never_cancelled suppress str_placeholder (strip_node 1) 1 =
     Some (Inr (Some (0, 3 / 4)))
   \<and> center (bbox_region (strip_node 1)) = (0, 1)"
proof -
  have start: "mp_process_by_chunks (pool_engine two_bands)
                 (\<lambda>sub. p_centroid sub (node_sample (strip_node 1)) 1) (bbox_region (strip_node 1)) =
               \<lparr>pending = map Some [Inr (0, 0, 1), Inr (0, 3 / 2, 1)], collected = [], aborted = False\<rparr>"
    by (simp add: pool_engine_fields strip_region strip_sample two_bands_def
        p_centroid_first_band p_centroid_second_band)
  show ?thesis
    unfolding centroid_def start poll_pool_run
    by (simp add: pool_engine_fields centroid_aggregate_def py_div_def center_def strip_region)
qed

text \<open>
  C6. When every sample is 0.0 each worker returns \<open>(0, 0, 0)\<close>; a call whose collected
  results are all \<open>(0, 0, 0)\<close>, the state flag at success, returns the unnormalized sums
  \<open>(0, 0)\<close> and divides by nothing. In general the sums are divided by the summed weight
  exactly when it is strictly positive.
\<close>

theorem centroid_all_zero:
  assumes "step \<noteq> 0"
  shows "p_centroid sub (\<lambda>x y. Inr 0) step = Some (Inr (0, 0, 0))
         \<and> (poll mp isCancelled 0
               (mp_process_by_chunks mp (\<lambda>sub. p_centroid sub (node_sample nd) step)
                  (bbox_region nd)) = Some (Inr e')
             \<and> mp_state mp e' \<and> set (mp_results mp e') \<subseteq> {Inr (0, 0, 0)} \<longrightarrow>
             centroid mp isCancelled suppress py_str nd step = Some (Inr (Some (0, 0))))
         \<and> (centroid_sums py_str state results (0, 0, 0) = Inr (sum_x, sum_y, sum_weight) \<longrightarrow>
             centroid_aggregate py_str results state =
               Completes (Some (if 0 < sum_weight
                                then (sum_x / sum_weight, sum_y / sum_weight)
                                else (sum_x, sum_y))))"
proof (intro conjI impI)
  show "p_centroid sub (\<lambda>x y. Inr 0) step = Some (Inr (0, 0, 0))"
    unfolding p_centroid_fold[OF assms]
    using centroid_fold_zero[of 0 "visited sub step"] by simp
next
  assume h: "poll mp isCancelled 0
               (mp_process_by_chunks mp (\<lambda>sub. p_centroid sub (node_sample nd) step)
                  (bbox_region nd)) = Some (Inr e')
             \<and> mp_state mp e' \<and> set (mp_results mp e') \<subseteq> {Inr (0, 0, 0)}"
  then have "centroid_sums py_str (mp_state mp e') (mp_results mp e') (0, 0, 0) = Inr (0, 0, 0)"
    using centroid_sums_zero[of "mp_results mp e'" py_str "(0, 0, 0)"] by simp
  then show "centroid mp isCancelled suppress py_str nd step = Some (Inr (Some (0, 0)))"
    using h by (simp add: centroid_def centroid_aggregate_def)
next
  assume "centroid_sums py_str state results (0, 0, 0) = Inr (sum_x, sum_y, sum_weight)"
  then show "centroid_aggregate py_str results state =
               Completes (Some (if 0 < sum_weight
                                then (sum_x / sum_weight, sum_y / sum_weight)
                                else (sum_x, sum_y)))"
    by (simp add: centroid_aggregate_def py_div_def)
qed

theorem centroid_all_zero_witness:
  "centroid (pool_engine two_bands) never_cancelled False str_placeholder (strip_node 0) 1 =
     Some (Inr (Some (0, 0)))"
proof -
  have w: "p_centroid sub (constant_sampler 0) 1 = Some (Inr (0, 0, 0))" for sub
    unfolding constant_sampler_eq using centroid_all_zero[of 1 sub, THEN conjunct1] by simp
  have start: "mp_process_by_chunks (pool_engine two_bands)
                 (\<lambda>sub. p_centroid sub (node_sample (strip_node 0)) 1) (bbox_region (strip_node 0)) =
               \<lparr>pending = map Some [Inr (0, 0, 0), Inr (0, 0, 0)], collected = [], aborted = False\<rparr>"
    by (simp add: pool_engine_fields strip_sample two_bands_def w)
  have run: "poll (pool_engine two_bands) never_cancelled 0
               (mp_process_by_chunks (pool_engine two_bands)
                  (\<lambda>sub. p_centroid sub (node_sample (strip_node 0)) 1) (bbox_region (strip_node 0))) =
             Some (Inr \<lparr>pending = [], collected = [Inr (0, 0, 0), Inr (0, 0, 0)], aborted = False\<rparr>)"
    unfolding start poll_pool_run by simp
  show ?thesis
    using centroid_all_zero[where step = 1 and mp = "pool_engine two_bands"
        and isCancelled = never_cancelled and nd = "strip_node 0"
        and e' = "\<lparr>pending = [], collected = [Inr (0, 0, 0), Inr (0, 0, 0)], aborted = False\<rparr>"
        and suppress = False and py_str = str_placeholder] run
    by (simp add: pool_engine_fields)
qed

text \<open>
  C9. Whenever \<^verbatim>\<open>max_value\<close> returns, it returns a number that is at least 0.0, for every
  engine, every sampler and every collection of results; so does the worker
  \<^verbatim>\<open>_max_value\<close>. Both accumulators start at 0.0.
\<close>

theorem max_value_nonnegative:
  "(max_value mp isCancelled suppress py_str nd step = Some (Inr r) \<longrightarrow>
      (\<exists>v. r = Some v \<and> 0 \<le> v))
   \<and> (p_max_value region sample step = Some (Inr w) \<longrightarrow> 0 \<le> w)"
proof
  show "max_value mp isCancelled suppress py_str nd step = Some (Inr r) \<longrightarrow>
          (\<exists>v. r = Some v \<and> 0 \<le> v)"
  proof
    assume h: "max_value mp isCancelled suppress py_str nd step = Some (Inr r)"
    define start where
      "start = mp_process_by_chunks mp (\<lambda>sub. p_max_value sub (node_sample nd) step) (bbox_region nd)"
    from h obtain q where q: "poll mp isCancelled 0 start = Some q"
      unfolding max_value_def start_def by (auto split: option.splits)
    show "\<exists>v. r = Some v \<and> 0 \<le> v"
    proof (cases q)
      case (Inl e)
      then show ?thesis
        using h q unfolding max_value_def start_def by (auto split: if_splits)
    next
      case (Inr e')
      define out where
        "out = max_value_aggregate py_str (mp_state mp e') (mp_results mp e') 0"
      have r: "map_sum id Some (with_exit suppress out) = Inr r"
        using h q Inr unfolding max_value_def start_def out_def by simp
      show ?thesis
      proof (cases out)
        case (Completes v)
        then have "0 \<le> v"
          using max_value_aggregate_nonneg[of 0 py_str "mp_state mp e'" "mp_results mp e'" v]
          unfolding out_def by simp
        then show ?thesis using r Completes by auto
      next
        case (Raises e v)
        then have "0 \<le> v"
          using max_value_aggregate_nonneg[of 0 py_str "mp_state mp e'" "mp_results mp e'" v e]
          unfolding out_def by simp
        then show ?thesis using r Raises by (auto split: if_splits)
      qed
    qed
  qed
next
  show "p_max_value region sample step = Some (Inr w) \<longrightarrow> 0 \<le> w"
  proof (cases "step = 0")
    case True
    then show ?thesis by (simp add: p_max_value_def for_xrange.simps)
  next
    case False
    show ?thesis
      unfolding p_max_value_fold[OF False] using max_fold_ge[of sample _ 0 w] by simp
  qed
qed

theorem max_value_nonnegative_witness:
  "max_value (pool_engine whole) never_cancelled False str_placeholder (strip_node (- 2)) 1 =
     Some (Inr (Some 0))
   \<and> p_max_value \<lparr>x1 = 0, y1 = 0, x2 = 0, y2 = 2\<rparr> (constant_sampler (- 2)) 1 = Some (Inr 0)"
proof -
  have start: "mp_process_by_chunks (pool_engine whole)
                 (\<lambda>sub. p_max_value sub (node_sample (strip_node (- 2))) 1)
                 (bbox_region (strip_node (- 2))) =
               \<lparr>pending = map Some [Inr 0], collected = [], aborted = False\<rparr>"
    by (simp add: pool_engine_fields strip_sample strip_region whole_def p_max_value_strip)
  have top: "max_value (pool_engine whole) never_cancelled False str_placeholder (strip_node (- 2)) 1 =
             Some (Inr (Some 0))"
    unfolding max_value_def start poll_pool_run by (simp add: pool_engine_fields)
  show ?thesis
    using max_value_nonnegative[where mp = "pool_engine whole" and isCancelled = never_cancelled
        and suppress = False and py_str = str_placeholder and nd = "strip_node (- 2)"
        and step = 1 and r = "Some 0" and region = "\<lparr>x1 = 0, y1 = 0, x2 = 0, y2 = 2\<rparr>"
        and sample = "constant_sampler (- 2)" and w = 0]
      top
    by (simp add: p_max_value_strip)
qed

end
